theory Spec2Isabelle
  imports Complex_Main "HOL-Library.Word" "HOL-Library.Sublist"
begin

section \<open>Time-of-day check for camera-trap images (check\_ToD.py)\<close>

text \<open>
  The script walks a directory tree, reads every file whose name passes its filter,
  takes the mean of the saturation and value channels of the HSV image, and appends one
  record per image to a list: Night is True below a mean saturation of 5.0 and False
  above it. \<open>main\<close> is the command-line driver around \<open>check_ToD\<close>.
\<close>

subsection \<open>Data\<close>

text \<open>
  Exceptions of the Python run. \<open>CvError\<close> is the \<open>cv2.error\<close> that
  \<open>cv2.cvtColor\<close> raises on an absent or empty source; \<open>SystemExit\<close> carries the
  exit status of \<open>argparse\<close>.
\<close>

datatype error = CvError | AttributeError | AssertionError | SystemExit nat

text \<open>
  One pixel of the array \<open>img_hsv\<close>: the three unsigned 8-bit channels H, S, V, so
  that index 1 of the last axis is the saturation and index 2 the value. An image is
  the list of its pixels, row after row; both statistics are means over all pixels, so
  the two-dimensional shape plays no part.
\<close>

type_synonym pixel = "8 word \<times> 8 word \<times> 8 word"

type_synonym image = "pixel list"

text \<open>
  A directory as \<open>os.walk\<close> sees it: the non-directory entries and the subdirectories,
  each in the order of the scan. Every file carries what \<open>cv2.imread\<close> followed by the
  conversion to HSV makes of it: \<open>None\<close> when \<open>imread\<close> returns \<open>None\<close> (the file is
  not a readable image), otherwise the pixels of the HSV array.
\<close>

datatype dir = Dir (dir_files: "(string \<times> image option) list") (dir_subdirs: "(string \<times> dir) list")

datatype node = RegularFile | Directory dir

text \<open>The file system maps a path, as the caller writes it, to what is found there.\<close>

type_synonym filesystem = "string \<Rightarrow> node option"

text \<open>The dictionary appended to \<open>data\<close>; the key \<open>value\<close> is the field \<open>val\<close>.\<close>

record image_record =
  filename :: string
  saturation :: real
  val :: real
  Night :: bool

text \<open>
  \<open>pd.DataFrame(data)\<close> of a list of dictionaries: the columns are the keys of the
  dictionaries in order of first appearance, so a frame made of no dictionary has no
  column; the rows are the dictionaries in list order.
\<close>

record dataframe =
  columns :: "string list"
  rows :: "image_record list"

definition DataFrame :: "image_record list \<Rightarrow> dataframe" where
  "DataFrame data =
     \<lparr>columns = (if data = [] then [] else [''filename'', ''saturation'', ''value'', ''Night'']),
      rows = data\<rparr>"

subsection \<open>Strings and paths\<close>

text \<open>\<open>s.endswith(suffix)\<close>.\<close>

definition endswith :: "string \<Rightarrow> string \<Rightarrow> bool" where
  "endswith s suf \<longleftrightarrow> length suf \<le> length s \<and> drop (length s - length suf) s = suf"

text \<open>Python's \<open>a or b\<close> on strings: \<open>a\<close> when it is non-empty, else \<open>b\<close>.\<close>

definition py_or :: "string \<Rightarrow> string \<Rightarrow> string" where
  "py_or a b = (if a \<noteq> [] then a else b)"

text \<open>
  The argument of \<open>endswith\<close> on line 56, \<open>'.JPG' or '.jpg' or '.JPEG' or '.jpeg'\<close>,
  with \<open>or\<close> associating to the left.
\<close>

definition filter_suffix :: string where
  "filter_suffix = py_or (py_or (py_or ''.JPG'' ''.jpg'') ''.JPEG'') ''.jpeg''"

text \<open>Components joined by the separator of the host (\<open>os.sep\<close>).\<close>

fun join_names :: "char \<Rightarrow> string list \<Rightarrow> string" where
  "join_names sep [] = []"
| "join_names sep [c] = c"
| "join_names sep (c # cs) = c @ sep # join_names sep cs"

text \<open>
  \<open>os.path.relpath(directory, start=image_directory)\<close> for a directory that
  \<open>os.walk(image_directory)\<close> yields. \<open>os.walk\<close> builds \<open>directory\<close> by joining the
  names of the subdirectories it descends through onto \<open>image_directory\<close>, and
  \<open>relpath\<close> takes the common start away again: the result is \<open>'.'\<close> for the root itself
  and otherwise those names, joined by the separator of the host.
\<close>

definition relpath :: "char \<Rightarrow> string list \<Rightarrow> string" where
  "relpath sep names = (if names = [] then ''.'' else join_names sep names)"

subsection \<open>The directory walk\<close>

text \<open>
  \<open>os.walk\<close>, top down: a directory is yielded before its subdirectories, and the
  subdirectories are walked in scan order. A triple holds the names leading from the
  root to the directory, the names of its subdirectories and its files.
\<close>

type_synonym walk_entry = "string list \<times> string list \<times> (string \<times> image option) list"

fun walk :: "string list \<Rightarrow> dir \<Rightarrow> walk_entry list"
  and walk_subdirs :: "string list \<Rightarrow> (string \<times> dir) list \<Rightarrow> walk_entry list" where
  "walk names (Dir fs ds) = (names, map fst ds, fs) # walk_subdirs names ds"
| "walk_subdirs names [] = []"
| "walk_subdirs names ((n, d) # ds) = walk (names @ [n]) d @ walk_subdirs names ds"

text \<open>
  A top that is missing or is not a directory yields nothing: \<open>os.walk\<close> ignores the
  error of the scan when no \<open>onerror\<close> is given.
\<close>

definition os_walk :: "filesystem \<Rightarrow> string \<Rightarrow> walk_entry list" where
  "os_walk fs image_directory = (case fs image_directory of Some (Directory d) \<Rightarrow> walk [] d | _ \<Rightarrow> [])"

definition path_exists :: "filesystem \<Rightarrow> string \<Rightarrow> bool" where
  "path_exists fs p \<longleftrightarrow> fs p \<noteq> None"

subsection \<open>Image statistics\<close>

text \<open>
  \<open>cv2.cvtColor(image, cv2.COLOR_BGR2HSV)\<close> fails on \<open>None\<close> and on an empty array
  alike (its assertion \<open>!_src.empty()\<close>).
\<close>

definition cvtColor :: "image option \<Rightarrow> error + image" where
  "cvtColor img =
     (case img of
        None \<Rightarrow> Inl CvError
      | Some px \<Rightarrow> if px = [] then Inl CvError else Inr px)"

definition channel1 :: "image \<Rightarrow> 8 word list" where
  "channel1 img_hsv = map (\<lambda>(h, s, v). s) img_hsv"

definition channel2 :: "image \<Rightarrow> 8 word list" where
  "channel2 img_hsv = map (\<lambda>(h, s, v). v) img_hsv"

text \<open>
  \<open>.mean()\<close> of an array of unsigned bytes: their sum over their number. The sum of
  bytes is exact in a double; the quotient is taken here as the exact number, which
  compares with 5.0 as the rounded double does for any image of fewer than \<open>2 ^ 51\<close>
  pixels. The array is never empty where the mean is taken.
\<close>

definition mean :: "8 word list \<Rightarrow> real" where
  "mean xs = real (sum_list (map unat xs)) / real (length xs)"

subsection \<open>The classifier\<close>

text \<open>The body of the inner loop (lines 56 to 66) for one file, \<open>data\<close> passed through.\<close>

definition process_file ::
  "string \<Rightarrow> image_record list \<Rightarrow> string \<times> image option \<Rightarrow> error + image_record list" where
  "process_file rel_subdir data entry =
     (case entry of (f, img) \<Rightarrow>
        if endswith f filter_suffix then
          (case cvtColor img of
             Inl e \<Rightarrow> Inl e
           | Inr img_hsv \<Rightarrow>
               (let saturation = mean (channel1 img_hsv);
                    value = mean (channel2 img_hsv)
                in if saturation < 5 then
                     Inr (data @ [\<lparr>filename = rel_subdir @ ''/'' @ f, saturation = saturation,
                                   val = value, Night = True\<rparr>])
                   else if saturation > 5 then
                     Inr (data @ [\<lparr>filename = rel_subdir @ ''/'' @ f, saturation = saturation,
                                   val = value, Night = False\<rparr>])
                   else Inr data))
        else Inr data)"

text \<open>\<open>for f in files\<close>: the first exception ends the loop.\<close>

fun files_loop ::
  "string \<Rightarrow> image_record list \<Rightarrow> (string \<times> image option) list \<Rightarrow> error + image_record list" where
  "files_loop rel_subdir data [] = Inr data"
| "files_loop rel_subdir data (x # xs) =
     (case process_file rel_subdir data x of
        Inl e \<Rightarrow> Inl e
      | Inr data' \<Rightarrow> files_loop rel_subdir data' xs)"

text \<open>\<open>for directory, subdirs, files in os.walk(image_directory)\<close>.\<close>

fun walk_loop :: "char \<Rightarrow> image_record list \<Rightarrow> walk_entry list \<Rightarrow> error + image_record list" where
  "walk_loop sep data [] = Inr data"
| "walk_loop sep data ((names, subdirs, files) # rest) =
     (let rel_subdir = relpath sep names
      in case files_loop rel_subdir data files of
           Inl e \<Rightarrow> Inl e
         | Inr data' \<Rightarrow> walk_loop sep data' rest)"

definition check_ToD :: "char \<Rightarrow> filesystem \<Rightarrow> string \<Rightarrow> error + dataframe" where
  "check_ToD sep fs image_directory =
     (case walk_loop sep [] (os_walk fs image_directory) of
        Inl e \<Rightarrow> Inl e
      | Inr data \<Rightarrow> Inr (DataFrame data))"

subsection \<open>What one file contributes\<close>

text \<open>
  The record of one file, read off the two branches of lines 61 to 66: none for a file
  the filter rejects or whose mean saturation is exactly 5.
\<close>

definition record_of :: "string \<Rightarrow> string \<times> image option \<Rightarrow> image_record option" where
  "record_of rel_subdir entry =
     (case entry of
        (f, Some px) \<Rightarrow>
          if endswith f filter_suffix \<and> mean (channel1 px) \<noteq> 5 then
            Some \<lparr>filename = rel_subdir @ ''/'' @ f, saturation = mean (channel1 px),
                  val = mean (channel2 px), Night = (mean (channel1 px) < 5)\<rparr>
          else None
      | (f, None) \<Rightarrow> None)"

definition records_of_walk :: "char \<Rightarrow> walk_entry list \<Rightarrow> image_record list" where
  "records_of_walk sep ws =
     concat (map (\<lambda>(names, subdirs, files). List.map_filter (record_of (relpath sep names)) files) ws)"

text \<open>
  What a run reads of the walk: for each directory yielded, in order, the names leading
  to it and the files that pass the filter, in order, each with its decoded image. The
  other files are never opened, and the path of the root and the list of subdirectory
  names are not used.
\<close>

definition read_by_run :: "walk_entry list \<Rightarrow> (string list \<times> (string \<times> image option) list) list" where
  "read_by_run ws =
     map (\<lambda>w. (fst w, filter (\<lambda>x. endswith (fst x) filter_suffix) (snd (snd w)))) ws"

subsection \<open>The command-line driver\<close>

text \<open>
  The namespace that \<open>parser.parse_args()\<close> returns: the attributes it holds, by
  name. Reading an attribute that is not there raises \<open>AttributeError\<close>.
\<close>

type_synonym namespace = "(string \<times> string) list"

definition getattr :: "namespace \<Rightarrow> string \<Rightarrow> error + string" where
  "getattr ns a = (case map_of ns a of None \<Rightarrow> Inl AttributeError | Some v \<Rightarrow> Inr v)"

text \<open>
  The parser declares the two positionals \<open>image_directory\<close> and \<open>save\<close> and nothing
  else. The command line is taken to hold positional words only (none is an option
  string): two of them fill the namespace, any other number is the usage error of
  \<open>argparse\<close>, exit status 2.
\<close>

definition parse_args :: "string list \<Rightarrow> error + namespace" where
  "parse_args argv =
     (case argv of
        [d, s] \<Rightarrow> Inr [(''image_directory'', d), (''save'', s)]
      | _ \<Rightarrow> Inl (SystemExit 2))"

text \<open>
  What \<open>main\<close> prints, the elapsed time left out, and the one file it writes:
  \<open>df.to_csv(args.save + ".csv", index=False)\<close> replaces whatever is at that path.
\<close>

datatype message = OverwriteWarning string | StartingCheck | FinishedChecking | FinishedResizing

record outcome =
  stdout :: "message list"
  written :: "string \<times> dataframe"

text \<open>
  The first line that \<open>to_csv(..., index=False)\<close> writes: the column names, separated
  by commas.
\<close>

definition csv_header :: "dataframe \<Rightarrow> string" where
  "csv_header df = join_names (CHR '','') (columns df)"

text \<open>
  \<open>main\<close>, line by line: no argument prints the help and exits with status 0; the
  assertion on the image directory; the test of \<open>args.output_directory\<close> (lines 91
  to 93); the check; the report.
\<close>

definition main :: "char \<Rightarrow> filesystem \<Rightarrow> string list \<Rightarrow> error + outcome" where
  "main sep fs argv =
     (if length argv = 0 then Inl (SystemExit 0)
      else
        (case parse_args argv of
           Inl e \<Rightarrow> Inl e
         | Inr args \<Rightarrow>
            (case getattr args ''image_directory'' of
               Inl e \<Rightarrow> Inl e
             | Inr image_directory \<Rightarrow>
                (if \<not> path_exists fs image_directory then Inl AssertionError
                 else
                   (case getattr args ''output_directory'' of
                      Inl e \<Rightarrow> Inl e
                    | Inr output_directory \<Rightarrow>
                       (let warning = (if path_exists fs output_directory
                                       then [OverwriteWarning output_directory] else [])
                        in (case check_ToD sep fs image_directory of
                              Inl e \<Rightarrow> Inl e
                            | Inr df \<Rightarrow>
                               (case getattr args ''save'' of
                                  Inl e \<Rightarrow> Inl e
                                | Inr save \<Rightarrow>
                                    Inr \<lparr>stdout = warning @
                                           [StartingCheck, FinishedChecking, FinishedResizing],
                                         written = (save @ ''.csv'', df)\<rparr>))))))))"

subsection \<open>Sample images and directory trees\<close>

text \<open>Two grey pixels (mean saturation 1), two coloured ones (160), two at saturation 5.\<close>

definition night_px :: image where
  "night_px = [(0, 0, 40), (0, 2, 60)]"

definition day_px :: image where
  "day_px = [(30, 200, 180), (90, 120, 200)]"

definition boundary_px :: image where
  "boundary_px = [(0, 5, 100), (0, 5, 90)]"

text \<open>
  \<open>CT_Images\<close> holds \<open>a.JPG\<close> and \<open>notes.txt\<close>, \<open>CT_Images/sub\<close> holds \<open>b.JPG\<close>,
  \<open>CT_Images/sub/deep\<close> holds \<open>c.JPG\<close>.
\<close>

definition nested_tree :: dir where
  "nested_tree =
     Dir [(''a.JPG'', Some night_px), (''notes.txt'', None)]
         [(''sub'', Dir [(''b.JPG'', Some day_px)]
                        [(''deep'', Dir [(''c.JPG'', Some day_px)] [])])]"

definition nested_fs :: filesystem where
  "nested_fs p = (if p = ''CT_Images'' then Some (Directory nested_tree) else None)"

text \<open>
  The same images under the same names at another path, among other files: no
  \<open>notes.txt\<close>, but \<open>Thumbs.db\<close> and \<open>preview.png\<close> in the root and \<open>b.jpg\<close> beside
  \<open>b.JPG\<close>.
\<close>

definition copied_tree :: dir where
  "copied_tree =
     Dir [(''Thumbs.db'', None), (''a.JPG'', Some night_px), (''preview.png'', Some day_px)]
         [(''sub'', Dir [(''b.JPG'', Some day_px), (''b.jpg'', Some boundary_px)]
                        [(''deep'', Dir [(''c.JPG'', Some day_px)] [])])]"

definition copied_fs :: filesystem where
  "copied_fs p = (if p = ''Backup'' then Some (Directory copied_tree) else None)"

text \<open>One directory with the four file names of the extension filter's examples.\<close>

definition extensions_fs :: filesystem where
  "extensions_fs p =
     (if p = ''CT_Images'' then
        Some (Directory (Dir [(''photo.jpeg'', Some day_px), (''photo.PNG'', Some day_px),
                              (''photo.JPG.bak'', Some day_px), (''photo.JPG'', Some day_px)] []))
      else None)"

text \<open>One image whose mean saturation is exactly 5.\<close>

definition boundary_fs :: filesystem where
  "boundary_fs p =
     (if p = ''CT_Images'' then Some (Directory (Dir [(''edge.JPG'', Some boundary_px)] []))
      else None)"

text \<open>A good image, then a file that does not decode, then another good image.\<close>

definition corrupt_fs :: filesystem where
  "corrupt_fs p =
     (if p = ''CT_Images'' then
        Some (Directory (Dir [(''a.JPG'', Some night_px), (''broken.JPG'', None),
                              (''z.JPG'', Some day_px)] []))
      else None)"

text \<open>A directory with an empty subdirectory and no image.\<close>

definition empty_fs :: filesystem where
  "empty_fs p =
     (if p = ''Empty'' then Some (Directory (Dir [(''notes.txt'', None)] [(''sub'', Dir [] [])]))
      else None)"

subsection \<open>Lemmas on the loops\<close>

lemma filter_suffix_eq: "filter_suffix = ''.JPG''"
  by (simp add: filter_suffix_def py_or_def)

lemma process_file_appends:
  assumes "process_file rel data x = Inr data'"
  shows "data' = data @ List.map_filter (record_of rel) [x]"
  using assms
  by (cases x)
     (auto simp: process_file_def record_of_def cvtColor_def List.map_filter_def Let_def
           split: if_splits option.splits sum.splits)

lemma files_loop_appends:
  "files_loop rel data xs = Inr data' \<Longrightarrow> data' = data @ List.map_filter (record_of rel) xs"
proof (induction xs arbitrary: data)
  case Nil
  then show ?case by (simp add: List.map_filter_def)
next
  case (Cons x xs)
  from Cons.prems obtain d where d: "process_file rel data x = Inr d"
    and rest: "files_loop rel d xs = Inr data'"
    by (auto split: sum.splits)
  have "d = data @ List.map_filter (record_of rel) [x]"
    using d by (rule process_file_appends)
  moreover have "data' = d @ List.map_filter (record_of rel) xs"
    using rest by (rule Cons.IH)
  ultimately show ?case by (simp add: List.map_filter_def)
qed

lemma walk_loop_appends:
  "walk_loop sep data ws = Inr data' \<Longrightarrow> data' = data @ records_of_walk sep ws"
proof (induction ws arbitrary: data)
  case Nil
  then show ?case by (simp add: records_of_walk_def)
next
  case (Cons w ws)
  obtain names subdirs fs where w: "w = (names, subdirs, fs)"
    by (cases w) auto
  from Cons.prems w obtain d where d: "files_loop (relpath sep names) data fs = Inr d"
    and rest: "walk_loop sep d ws = Inr data'"
    by (auto simp: Let_def split: sum.splits)
  have "d = data @ List.map_filter (record_of (relpath sep names)) fs"
    using d by (rule files_loop_appends)
  moreover have "data' = d @ records_of_walk sep ws"
    using rest by (rule Cons.IH)
  ultimately show ?case by (simp add: records_of_walk_def w)
qed

lemma check_ToD_rows:
  assumes "check_ToD sep fs topdir = Inr df"
  shows "rows df = records_of_walk sep (os_walk fs topdir)"
proof -
  from assms obtain data where data: "walk_loop sep [] (os_walk fs topdir) = Inr data"
    and df: "df = DataFrame data"
    by (auto simp: check_ToD_def split: sum.splits)
  from walk_loop_appends [OF data] df show ?thesis
    by (simp add: DataFrame_def)
qed

lemma record_of_Night:
  "record_of rel x = Some r \<Longrightarrow> Night r = (saturation r < 5) \<and> saturation r \<noteq> 5"
  by (cases x) (auto simp: record_of_def split: option.splits if_splits)

lemma map_filter_mem:
  "r \<in> set (List.map_filter f xs) \<longleftrightarrow> (\<exists>x. x \<in> set xs \<and> f x = Some r)"
proof (induction xs)
  case Nil
  then show ?case by simp
next
  case (Cons a xs)
  then show ?case
    by (cases "f a") auto
qed

lemma records_of_walk_mem:
  "r \<in> set (records_of_walk sep ws) \<longleftrightarrow>
     (\<exists>w. w \<in> set ws \<and> (\<exists>x. x \<in> set (snd (snd w)) \<and>
        record_of (relpath sep (fst w)) x = Some r))"
  unfolding records_of_walk_def
  by (simp add: map_filter_mem case_prod_beta) force

subsection \<open>The sample runs\<close>

lemma mean_night_px: "mean (channel1 night_px) = 1" "mean (channel2 night_px) = 50"
  by (simp_all add: mean_def channel1_def channel2_def night_px_def)

lemma mean_day_px: "mean (channel1 day_px) = 160" "mean (channel2 day_px) = 190"
  by (simp_all add: mean_def channel1_def channel2_def day_px_def)

lemma mean_boundary_px: "mean (channel1 boundary_px) = 5" "mean (channel2 boundary_px) = 95"
  by (simp_all add: mean_def channel1_def channel2_def boundary_px_def)

lemma cvtColor_samples:
  "cvtColor (Some night_px) = Inr night_px"
  "cvtColor (Some day_px) = Inr day_px"
  "cvtColor (Some boundary_px) = Inr boundary_px"
  "cvtColor None = Inl CvError"
  by (simp_all add: cvtColor_def night_px_def day_px_def boundary_px_def)

lemma nested_walk:
  "os_walk nested_fs ''CT_Images'' =
     [([], [''sub''], [(''a.JPG'', Some night_px), (''notes.txt'', None)]),
      ([''sub''], [''deep''], [(''b.JPG'', Some day_px)]),
      ([''sub'', ''deep''], [], [(''c.JPG'', Some day_px)])]"
  by (simp add: os_walk_def nested_fs_def nested_tree_def)

lemma nested_run:
  "check_ToD (CHR ''/'') nested_fs ''CT_Images'' =
     Inr \<lparr>columns = [''filename'', ''saturation'', ''value'', ''Night''],
          rows = [\<lparr>filename = ''./a.JPG'', saturation = 1, val = 50, Night = True\<rparr>,
                  \<lparr>filename = ''sub/b.JPG'', saturation = 160, val = 190, Night = False\<rparr>,
                  \<lparr>filename = ''sub/deep/c.JPG'', saturation = 160, val = 190, Night = False\<rparr>]\<rparr>"
  by (simp add: check_ToD_def nested_walk process_file_def filter_suffix_eq endswith_def
        relpath_def cvtColor_samples mean_night_px mean_day_px DataFrame_def)

subsection \<open>The threshold rule\<close>

text \<open>
  C1. Every record that the classifier appends has Night equal to (saturation < 5.0):
  a record whose mean saturation is strictly below 5.0 has Night true, and one whose
  mean saturation is strictly above 5.0 has Night false.
\<close>

theorem appended_record_Night:
  assumes "check_ToD sep fs topdir = Inr df" and "r \<in> set (rows df)"
  shows "Night r = (saturation r < 5)
         \<and> (saturation r < 5 \<longrightarrow> Night r)
         \<and> (saturation r > 5 \<longrightarrow> \<not> Night r)"
proof -
  from assms have "r \<in> set (records_of_walk sep (os_walk fs topdir))"
    by (simp add: check_ToD_rows)
  then obtain rel x where "record_of rel x = Some r"
    unfolding records_of_walk_mem by blast
  then have "Night r = (saturation r < 5)"
    by (simp add: record_of_Night)
  then show ?thesis by auto
qed

theorem appended_record_Night_witness:
  "check_ToD (CHR ''/'') nested_fs ''CT_Images'' =
     Inr \<lparr>columns = [''filename'', ''saturation'', ''value'', ''Night''],
          rows = [\<lparr>filename = ''./a.JPG'', saturation = 1, val = 50, Night = True\<rparr>,
                  \<lparr>filename = ''sub/b.JPG'', saturation = 160, val = 190, Night = False\<rparr>,
                  \<lparr>filename = ''sub/deep/c.JPG'', saturation = 160, val = 190, Night = False\<rparr>]\<rparr>
   \<and> Night \<lparr>filename = ''sub/b.JPG'', saturation = 160, val = 190, Night = False\<rparr>
       = (saturation \<lparr>filename = ''sub/b.JPG'', saturation = 160, val = 190, Night = False\<rparr> < 5)"
  using appended_record_Night [OF nested_run,
      of "\<lparr>filename = ''sub/b.JPG'', saturation = 160, val = 190, Night = False\<rparr>"]
    nested_run
  by simp

subsection \<open>The extension filter\<close>

text \<open>
  C2. The filter is meant to accept the extensions .JPG, .jpg, .JPEG and .jpeg. On a
  directory holding photo.jpeg, photo.PNG, photo.JPG.bak and photo.JPG, all of them
  coloured images, the classifier records photo.JPG only: the argument of
  \<open>endswith\<close> is the single string \<open>'.JPG'\<close>, and photo.jpeg is left out.
\<close>

theorem extension_filter_run:
  "filter_suffix = ''.JPG''
   \<and> \<not> endswith ''photo.jpeg'' filter_suffix
   \<and> \<not> endswith ''photo.PNG'' filter_suffix
   \<and> \<not> endswith ''photo.JPG.bak'' filter_suffix
   \<and> check_ToD (CHR ''/'') extensions_fs ''CT_Images'' =
       Inr \<lparr>columns = [''filename'', ''saturation'', ''value'', ''Night''],
            rows = [\<lparr>filename = ''./photo.JPG'', saturation = 160, val = 190, Night = False\<rparr>]\<rparr>"
  by (simp add: check_ToD_def os_walk_def extensions_fs_def process_file_def filter_suffix_eq
        endswith_def relpath_def cvtColor_samples mean_day_px DataFrame_def)

subsection \<open>The boundary\<close>

text \<open>
  C3. An image whose mean saturation is exactly 5.0 should be recorded as day. The run
  over a directory holding one such image returns a frame with no row: neither branch
  of lines 61 to 66 is taken.
\<close>

theorem boundary_run:
  "mean (channel1 boundary_px) = 5
   \<and> check_ToD (CHR ''/'') boundary_fs ''CT_Images'' = Inr \<lparr>columns = [], rows = []\<rparr>"
  by (simp add: check_ToD_def os_walk_def boundary_fs_def process_file_def filter_suffix_eq
        endswith_def relpath_def cvtColor_samples mean_boundary_px DataFrame_def)

subsection \<open>Files that do not decode\<close>

lemma process_file_error: "process_file rel data x = Inl e \<Longrightarrow> e = CvError"
  by (cases x)
     (auto simp: process_file_def cvtColor_def Let_def split: if_splits option.splits sum.splits)

lemma process_file_None:
  "endswith f filter_suffix \<Longrightarrow> process_file rel data (f, None) = Inl CvError"
  by (simp add: process_file_def cvtColor_def)

lemma files_loop_error: "files_loop rel data xs = Inl e \<Longrightarrow> e = CvError"
proof (induction xs arbitrary: data)
  case Nil
  then show ?case by simp
next
  case (Cons x xs)
  show ?case
  proof (cases "process_file rel data x")
    case (Inl e')
    with Cons.prems show ?thesis by (simp add: process_file_error)
  next
    case (Inr d)
    with Cons.prems have "files_loop rel d xs = Inl e" by simp
    then show ?thesis by (rule Cons.IH)
  qed
qed

lemma files_loop_None:
  assumes "(f, None) \<in> set xs" and "endswith f filter_suffix"
  shows "files_loop rel data xs = Inl CvError"
  using assms(1)
proof (induction xs arbitrary: data)
  case Nil
  then show ?case by simp
next
  case (Cons x xs)
  show ?case
  proof (cases "process_file rel data x")
    case (Inl e)
    then show ?thesis by (simp add: process_file_error)
  next
    case (Inr d)
    with process_file_None [OF assms(2)] have "x \<noteq> (f, None)" by auto
    with Cons.prems have "(f, None) \<in> set xs" by simp
    then have "files_loop rel d xs = Inl CvError" by (rule Cons.IH)
    with Inr show ?thesis by simp
  qed
qed

lemma walk_loop_error: "walk_loop sep data ws = Inl e \<Longrightarrow> e = CvError"
proof (induction ws arbitrary: data)
  case Nil
  then show ?case by simp
next
  case (Cons w ws)
  obtain names subs fs where w: "w = (names, subs, fs)"
    by (cases w) auto
  show ?case
  proof (cases "files_loop (relpath sep names) data fs")
    case (Inl e')
    with Cons.prems w show ?thesis by (simp add: files_loop_error)
  next
    case (Inr d)
    with Cons.prems w have "walk_loop sep d ws = Inl e" by simp
    then show ?thesis by (rule Cons.IH)
  qed
qed

lemma walk_loop_None:
  assumes "(f, None) \<in> set (snd (snd w))" and "endswith f filter_suffix"
  shows "w \<in> set ws \<Longrightarrow> walk_loop sep data ws = Inl CvError"
proof (induction ws arbitrary: data)
  case Nil
  then show ?case by simp
next
  case (Cons v ws)
  obtain names subs fs where v: "v = (names, subs, fs)"
    by (cases v) auto
  show ?case
  proof (cases "files_loop (relpath sep names) data fs")
    case (Inl e)
    then have "e = CvError" by (rule files_loop_error)
    with Inl v show ?thesis by simp
  next
    case (Inr d)
    have "w \<noteq> v"
    proof
      assume "w = v"
      with assms(1) v have "(f, None) \<in> set fs" by simp
      then have "files_loop (relpath sep names) data fs = Inl CvError"
        using assms(2) by (rule files_loop_None)
      with Inr show False by simp
    qed
    with Cons.prems have "w \<in> set ws" by simp
    then have "walk_loop sep d ws = Inl CvError" by (rule Cons.IH)
    with Inr v show ?thesis by simp
  qed
qed

text \<open>
  C4. If some file that passes the filter does not decode (the decode step gives
  \<open>None\<close>), the conversion raises, the run ends with that error and returns no frame:
  the records gathered before it are not returned.
\<close>

theorem undecodable_file_aborts:
  assumes "w \<in> set (os_walk fs d)"
    and "(f, None) \<in> set (snd (snd w))"
    and "endswith f filter_suffix"
  shows "check_ToD sep fs d = Inl CvError"
  using walk_loop_None [OF assms(2) assms(3) assms(1), of sep "[]"]
  by (simp add: check_ToD_def)

lemma corrupt_walk:
  "os_walk corrupt_fs ''CT_Images'' =
     [([], [], [(''a.JPG'', Some night_px), (''broken.JPG'', None), (''z.JPG'', Some day_px)])]"
  by (simp add: os_walk_def corrupt_fs_def)

theorem undecodable_file_aborts_witness:
  "([], [], [(''a.JPG'', Some night_px), (''broken.JPG'', None), (''z.JPG'', Some day_px)])
       \<in> set (os_walk corrupt_fs ''CT_Images'')
   \<and> endswith ''broken.JPG'' filter_suffix
   \<and> process_file ''.'' [] (''a.JPG'', Some night_px) =
       Inr [\<lparr>filename = ''./a.JPG'', saturation = 1, val = 50, Night = True\<rparr>]
   \<and> check_ToD (CHR ''/'') corrupt_fs ''CT_Images'' = Inl CvError"
proof -
  let ?w = "([] :: string list, [] :: string list,
             [(''a.JPG'', Some night_px), (''broken.JPG'', None), (''z.JPG'', Some day_px)])"
  have h1: "?w \<in> set (os_walk corrupt_fs ''CT_Images'')"
    by (simp add: corrupt_walk)
  have h2: "(''broken.JPG'', None) \<in> set (snd (snd ?w))"
    by simp
  have h3: "endswith ''broken.JPG'' filter_suffix"
    by (simp add: endswith_def filter_suffix_eq)
  have first: "process_file ''.'' [] (''a.JPG'', Some night_px) =
       Inr [\<lparr>filename = ''./a.JPG'', saturation = 1, val = 50, Night = True\<rparr>]"
    by (simp add: process_file_def endswith_def filter_suffix_eq cvtColor_samples mean_night_px)
  from undecodable_file_aborts [OF h1 h2 h3] h1 h3 first show ?thesis
    by simp
qed

subsection \<open>Recorded file names\<close>

lemma record_of_passing:
  assumes "endswith f filter_suffix" and "mean (channel1 px) \<noteq> 5"
  shows "record_of rel (f, Some px) =
     Some \<lparr>filename = rel @ ''/'' @ f, saturation = mean (channel1 px),
           val = mean (channel2 px), Night = (mean (channel1 px) < 5)\<rparr>"
  using assms by (simp add: record_of_def)

lemma recorded_in_rows:
  assumes run: "check_ToD sep fs d = Inr df"
    and w: "(names, subs, files) \<in> set (os_walk fs d)"
    and f: "(f, Some px) \<in> set files"
    and pass: "endswith f filter_suffix"
    and sat: "mean (channel1 px) \<noteq> 5"
  shows "\<lparr>filename = relpath sep names @ ''/'' @ f, saturation = mean (channel1 px),
          val = mean (channel2 px), Night = (mean (channel1 px) < 5)\<rparr> \<in> set (rows df)"
proof -
  have "record_of (relpath sep (fst (names, subs, files))) (f, Some px) =
     Some \<lparr>filename = relpath sep names @ ''/'' @ f, saturation = mean (channel1 px),
           val = mean (channel2 px), Night = (mean (channel1 px) < 5)\<rparr>"
    using pass sat by (simp add: record_of_passing)
  moreover have "(f, Some px) \<in> set (snd (snd (names, subs, files)))"
    using f by simp
  ultimately show ?thesis
    unfolding check_ToD_rows [OF run] records_of_walk_mem using w by blast
qed

lemma nested_run_backslash:
  "check_ToD (CHR 0x5C) nested_fs ''CT_Images'' =
     Inr \<lparr>columns = [''filename'', ''saturation'', ''value'', ''Night''],
          rows = [\<lparr>filename = ''./a.JPG'', saturation = 1, val = 50, Night = True\<rparr>,
                  \<lparr>filename = ''sub/b.JPG'', saturation = 160, val = 190, Night = False\<rparr>,
                  \<lparr>filename = ''sub'' @ CHR 0x5C # ''deep/c.JPG'', saturation = 160, val = 190,
                    Night = False\<rparr>]\<rparr>"
  by (simp add: check_ToD_def nested_walk process_file_def filter_suffix_eq endswith_def
        relpath_def cvtColor_samples mean_night_px mean_day_px DataFrame_def)

text \<open>
  C5, as the claim states it, fails where the separator of the host is the backslash:
  the image at \<open>CT_Images/sub/deep/c.JPG\<close> is recorded with the backslash between
  \<open>sub\<close> and \<open>deep\<close>, not as \<open>sub/deep/c.JPG\<close>.
\<close>

theorem backslash_host_filename:
  "check_ToD (CHR 0x5C) nested_fs ''CT_Images'' =
     Inr \<lparr>columns = [''filename'', ''saturation'', ''value'', ''Night''],
          rows = [\<lparr>filename = ''./a.JPG'', saturation = 1, val = 50, Night = True\<rparr>,
                  \<lparr>filename = ''sub/b.JPG'', saturation = 160, val = 190, Night = False\<rparr>,
                  \<lparr>filename = ''sub'' @ CHR 0x5C # ''deep/c.JPG'', saturation = 160, val = 190,
                    Night = False\<rparr>]\<rparr>
   \<and> ''sub'' @ CHR 0x5C # ''deep/c.JPG'' \<noteq> ''sub/deep/c.JPG''"
  using nested_run_backslash by simp

text \<open>
  C5, amended. For every processed image in a subdirectory of the scanned root, the
  recorded filename is the names of the directories leading from the root to it, joined
  by the separator of the host, then a forward slash, then the file name. One level
  below the root that is \<open>sub/a.JPG\<close> on every host, and on a host whose separator is
  the forward slash it is the forward-slash relative path at any depth.
\<close>

theorem subdirectory_filename:
  assumes "check_ToD sep fs d = Inr df"
    and "(names, subs, files) \<in> set (os_walk fs d)"
    and "names \<noteq> []"
    and "(f, Some px) \<in> set files"
    and "endswith f filter_suffix"
    and "mean (channel1 px) \<noteq> 5"
  shows "\<lparr>filename = join_names sep names @ ''/'' @ f, saturation = mean (channel1 px),
          val = mean (channel2 px), Night = (mean (channel1 px) < 5)\<rparr> \<in> set (rows df)
         \<and> (\<forall>n. names = [n] \<longrightarrow> join_names sep names @ ''/'' @ f = n @ ''/'' @ f)"
  using recorded_in_rows [OF assms(1) assms(2) assms(4) assms(5) assms(6)] assms(3)
  by (simp add: relpath_def)

theorem subdirectory_filename_witness:
  "check_ToD (CHR ''/'') nested_fs ''CT_Images'' =
     Inr \<lparr>columns = [''filename'', ''saturation'', ''value'', ''Night''],
          rows = [\<lparr>filename = ''./a.JPG'', saturation = 1, val = 50, Night = True\<rparr>,
                  \<lparr>filename = ''sub/b.JPG'', saturation = 160, val = 190, Night = False\<rparr>,
                  \<lparr>filename = ''sub/deep/c.JPG'', saturation = 160, val = 190, Night = False\<rparr>]\<rparr>
   \<and> ([''sub'', ''deep''], [], [(''c.JPG'', Some day_px)]) \<in> set (os_walk nested_fs ''CT_Images'')
   \<and> endswith ''c.JPG'' filter_suffix
   \<and> mean (channel1 day_px) \<noteq> 5
   \<and> \<lparr>filename = ''sub/deep/c.JPG'', saturation = 160, val = 190, Night = False\<rparr>
       \<in> set [\<lparr>filename = ''./a.JPG'', saturation = 1, val = 50, Night = True\<rparr>,
              \<lparr>filename = ''sub/b.JPG'', saturation = 160, val = 190, Night = False\<rparr>,
              \<lparr>filename = ''sub/deep/c.JPG'', saturation = 160, val = 190, Night = False\<rparr>]"
proof -
  have h2: "([''sub'', ''deep''], [], [(''c.JPG'', Some day_px)])
       \<in> set (os_walk nested_fs ''CT_Images'')"
    by (simp add: nested_walk)
  have h3: "[''sub'', ''deep''] \<noteq> []" by simp
  have h4: "(''c.JPG'', Some day_px) \<in> set [(''c.JPG'', Some day_px)]" by simp
  have h5: "endswith ''c.JPG'' filter_suffix"
    by (simp add: endswith_def filter_suffix_eq)
  have h6: "mean (channel1 day_px) \<noteq> 5"
    by (simp add: mean_day_px)
  from subdirectory_filename [OF nested_run h2 h3 h4 h5 h6] nested_run h2 h5 h6
  show ?thesis by (simp add: mean_day_px)
qed

text \<open>
  C10. For every processed file directly in the scanned root, the recorded filename is
  \<open>./\<close> followed by the name of the file, not the bare name: the relative path of the
  root to itself is \<open>.\<close>.
\<close>

theorem root_file_filename:
  assumes "check_ToD sep fs d = Inr df"
    and "fs d = Some (Directory (Dir files subs))"
    and "(f, Some px) \<in> set files"
    and "endswith f filter_suffix"
    and "mean (channel1 px) \<noteq> 5"
  shows "\<lparr>filename = ''./'' @ f, saturation = mean (channel1 px),
          val = mean (channel2 px), Night = (mean (channel1 px) < 5)\<rparr> \<in> set (rows df)
         \<and> ''./'' @ f \<noteq> f"
proof -
  have "([], map fst subs, files) \<in> set (os_walk fs d)"
    using assms(2) by (simp add: os_walk_def)
  from recorded_in_rows [OF assms(1) this assms(3) assms(4) assms(5)]
  show ?thesis by (simp add: relpath_def)
qed

theorem root_file_filename_witness:
  "check_ToD (CHR 0x5C) nested_fs ''CT_Images'' =
     Inr \<lparr>columns = [''filename'', ''saturation'', ''value'', ''Night''],
          rows = [\<lparr>filename = ''./a.JPG'', saturation = 1, val = 50, Night = True\<rparr>,
                  \<lparr>filename = ''sub/b.JPG'', saturation = 160, val = 190, Night = False\<rparr>,
                  \<lparr>filename = ''sub'' @ CHR 0x5C # ''deep/c.JPG'', saturation = 160, val = 190,
                    Night = False\<rparr>]\<rparr>
   \<and> endswith ''a.JPG'' filter_suffix
   \<and> mean (channel1 night_px) \<noteq> 5
   \<and> \<lparr>filename = ''./a.JPG'', saturation = 1, val = 50, Night = True\<rparr>
       \<in> set [\<lparr>filename = ''./a.JPG'', saturation = 1, val = 50, Night = True\<rparr>,
              \<lparr>filename = ''sub/b.JPG'', saturation = 160, val = 190, Night = False\<rparr>,
              \<lparr>filename = ''sub'' @ CHR 0x5C # ''deep/c.JPG'', saturation = 160, val = 190,
                Night = False\<rparr>]"
proof -
  have h2: "nested_fs ''CT_Images'' =
      Some (Directory (Dir [(''a.JPG'', Some night_px), (''notes.txt'', None)]
         [(''sub'', Dir [(''b.JPG'', Some day_px)]
                        [(''deep'', Dir [(''c.JPG'', Some day_px)] [])])]))"
    by (simp add: nested_fs_def nested_tree_def)
  have h3: "(''a.JPG'', Some night_px) \<in> set [(''a.JPG'', Some night_px), (''notes.txt'', None)]"
    by simp
  have h4: "endswith ''a.JPG'' filter_suffix"
    by (simp add: endswith_def filter_suffix_eq)
  have h5: "mean (channel1 night_px) \<noteq> 5"
    by (simp add: mean_night_px)
  from root_file_filename [OF nested_run_backslash h2 h3 h4 h5] nested_run_backslash h4 h5
  show ?thesis by (simp add: mean_night_px)
qed

subsection \<open>The driver\<close>

text \<open>
  C6. Invoked with an existing image directory and a name for the report, the program
  should run the check and write \<open><save>.csv\<close>. With \<open>CT_Images\<close> and
  \<open>CT_Images_ToD\<close> as arguments, the run ends on line 91 with \<open>AttributeError\<close>: the
  namespace has no attribute \<open>output_directory\<close>. Nothing is checked and nothing is
  written, although the check itself would return a frame.
\<close>

theorem main_run:
  "path_exists nested_fs ''CT_Images''
   \<and> parse_args [''CT_Images'', ''CT_Images_ToD''] =
       Inr [(''image_directory'', ''CT_Images''), (''save'', ''CT_Images_ToD'')]
   \<and> getattr [(''image_directory'', ''CT_Images''), (''save'', ''CT_Images_ToD'')]
        ''output_directory'' = Inl AttributeError
   \<and> main (CHR ''/'') nested_fs [''CT_Images'', ''CT_Images_ToD''] = Inl AttributeError"
  by (simp add: main_def parse_args_def getattr_def path_exists_def nested_fs_def)

subsection \<open>Order of the records\<close>

lemma process_file_prefix:
  assumes "process_file rel data x = Inr data'"
  shows "prefix data data' \<and> length data' \<le> Suc (length data)"
proof -
  have "data' = data @ List.map_filter (record_of rel) [x]"
    using assms by (rule process_file_appends)
  then show ?thesis
    by (cases "record_of rel x") simp_all
qed

text \<open>
  C7. The result collection is built by appending only, in the order of the traversal
  (directory by directory as the walk yields them, file by file within a directory):
  one step of the inner loop keeps what is there and adds at most one record, the
  walk keeps the records it starts from and adds the records of its files in order, and
  the rows returned are exactly those records, none changed or removed.
\<close>

theorem records_appended_in_traversal_order:
  "(process_file rel data x = Inr data1 \<longrightarrow>
       prefix data data1 \<and> length data1 \<le> Suc (length data))
   \<and> (walk_loop sep acc ws = Inr data2 \<longrightarrow>
       data2 = acc @ concat (map (\<lambda>w. List.map_filter (record_of (relpath sep (fst w)))
                                        (snd (snd w))) ws))
   \<and> (check_ToD sep fs d = Inr df \<longrightarrow>
       rows df = concat (map (\<lambda>w. List.map_filter (record_of (relpath sep (fst w)))
                                     (snd (snd w))) (os_walk fs d)))"
proof -
  have eq: "records_of_walk sep vs =
      concat (map (\<lambda>w. List.map_filter (record_of (relpath sep (fst w))) (snd (snd w))) vs)"
    for vs
    by (simp add: records_of_walk_def case_prod_unfold)
  show ?thesis
    using process_file_prefix [of rel data x data1] walk_loop_appends [of sep acc ws data2]
      check_ToD_rows [of sep fs d df]
    by (simp add: eq)
qed

lemma nested_records:
  "concat (map (\<lambda>w. List.map_filter (record_of (relpath (CHR ''/'') (fst w))) (snd (snd w)))
       (os_walk nested_fs ''CT_Images'')) =
     [\<lparr>filename = ''./a.JPG'', saturation = 1, val = 50, Night = True\<rparr>,
      \<lparr>filename = ''sub/b.JPG'', saturation = 160, val = 190, Night = False\<rparr>,
      \<lparr>filename = ''sub/deep/c.JPG'', saturation = 160, val = 190, Night = False\<rparr>]"
  by (simp add: nested_walk record_of_def filter_suffix_eq endswith_def relpath_def
        mean_night_px mean_day_px)

theorem records_appended_in_traversal_order_witness:
  "process_file ''sub'' [\<lparr>filename = ''./a.JPG'', saturation = 1, val = 50, Night = True\<rparr>]
       (''b.JPG'', Some day_px) =
     Inr [\<lparr>filename = ''./a.JPG'', saturation = 1, val = 50, Night = True\<rparr>,
          \<lparr>filename = ''sub/b.JPG'', saturation = 160, val = 190, Night = False\<rparr>]
   \<and> prefix [\<lparr>filename = ''./a.JPG'', saturation = 1, val = 50, Night = True\<rparr>]
       [\<lparr>filename = ''./a.JPG'', saturation = 1, val = 50, Night = True\<rparr>,
        \<lparr>filename = ''sub/b.JPG'', saturation = 160, val = 190, Night = False\<rparr>]
   \<and> walk_loop (CHR ''/'') [] (os_walk nested_fs ''CT_Images'') =
       Inr [\<lparr>filename = ''./a.JPG'', saturation = 1, val = 50, Night = True\<rparr>,
            \<lparr>filename = ''sub/b.JPG'', saturation = 160, val = 190, Night = False\<rparr>,
            \<lparr>filename = ''sub/deep/c.JPG'', saturation = 160, val = 190, Night = False\<rparr>]
   \<and> check_ToD (CHR ''/'') nested_fs ''CT_Images'' =
       Inr \<lparr>columns = [''filename'', ''saturation'', ''value'', ''Night''],
            rows = [\<lparr>filename = ''./a.JPG'', saturation = 1, val = 50, Night = True\<rparr>,
                    \<lparr>filename = ''sub/b.JPG'', saturation = 160, val = 190, Night = False\<rparr>,
                    \<lparr>filename = ''sub/deep/c.JPG'', saturation = 160, val = 190,
                      Night = False\<rparr>]\<rparr>
   \<and> rows \<lparr>columns = [''filename'', ''saturation'', ''value'', ''Night''],
            rows = [\<lparr>filename = ''./a.JPG'', saturation = 1, val = 50, Night = True\<rparr>,
                    \<lparr>filename = ''sub/b.JPG'', saturation = 160, val = 190, Night = False\<rparr>,
                    \<lparr>filename = ''sub/deep/c.JPG'', saturation = 160, val = 190,
                      Night = False\<rparr>]\<rparr> =
       concat (map (\<lambda>w. List.map_filter (record_of (relpath (CHR ''/'') (fst w))) (snd (snd w)))
         (os_walk nested_fs ''CT_Images''))"
proof -
  let ?a = "\<lparr>filename = ''./a.JPG'', saturation = 1, val = 50, Night = True\<rparr>"
  let ?b = "\<lparr>filename = ''sub/b.JPG'', saturation = 160, val = 190, Night = False\<rparr>"
  let ?c = "\<lparr>filename = ''sub/deep/c.JPG'', saturation = 160, val = 190, Night = False\<rparr>"
  let ?df = "\<lparr>columns = [''filename'', ''saturation'', ''value'', ''Night''], rows = [?a, ?b, ?c]\<rparr>"
  have h1: "process_file ''sub'' [?a] (''b.JPG'', Some day_px) = Inr [?a, ?b]"
    by (simp add: process_file_def endswith_def filter_suffix_eq cvtColor_samples mean_day_px)
  have h2: "walk_loop (CHR ''/'') [] (os_walk nested_fs ''CT_Images'') = Inr [?a, ?b, ?c]"
    by (simp add: nested_walk process_file_def filter_suffix_eq endswith_def
          relpath_def cvtColor_samples mean_night_px mean_day_px)
  from records_appended_in_traversal_order
    [of "''sub''" "[?a]" "(''b.JPG'', Some day_px)" "[?a, ?b]" "CHR ''/''" "[]"
        "os_walk nested_fs ''CT_Images''" "[?a, ?b, ?c]" nested_fs "''CT_Images''" ?df]
    h1 h2 nested_run nested_records
  show ?thesis by simp
qed

subsection \<open>Determinism\<close>

lemma process_file_skips:
  "\<not> endswith (fst x) filter_suffix \<Longrightarrow> process_file rel data x = Inr data"
  by (cases x) (simp add: process_file_def)

lemma files_loop_reads_passing:
  "files_loop rel data xs =
     files_loop rel data (filter (\<lambda>x. endswith (fst x) filter_suffix) xs)"
proof (induction xs arbitrary: data)
  case Nil
  show ?case by simp
next
  case (Cons x xs)
  show ?case
  proof (cases "endswith (fst x) filter_suffix")
    case True
    then show ?thesis
      by (cases "process_file rel data x") (simp_all add: Cons.IH)
  next
    case False
    then show ?thesis
      using Cons.IH [of data] by (simp add: process_file_skips)
  qed
qed

lemma walk_loop_Cons:
  "walk_loop sep data (w # rest) =
     (case files_loop (relpath sep (fst w)) data (snd (snd w)) of
        Inl e \<Rightarrow> Inl e
      | Inr data' \<Rightarrow> walk_loop sep data' rest)"
  by (cases w) simp

lemma walk_loop_reads:
  "read_by_run ws1 = read_by_run ws2 \<Longrightarrow> walk_loop sep data ws1 = walk_loop sep data ws2"
proof (induction ws1 arbitrary: ws2 data)
  case Nil
  then show ?case by (simp add: read_by_run_def)
next
  case (Cons w ws1)
  from Cons.prems obtain v vs where ws2: "ws2 = v # vs"
    by (cases ws2) (simp_all add: read_by_run_def)
  from Cons.prems ws2 have names: "fst w = fst v"
    and read: "filter (\<lambda>x. endswith (fst x) filter_suffix) (snd (snd w)) =
               filter (\<lambda>x. endswith (fst x) filter_suffix) (snd (snd v))"
    and rest: "read_by_run ws1 = read_by_run vs"
    by (simp_all add: read_by_run_def)
  have same: "files_loop (relpath sep (fst w)) data (snd (snd w)) =
              files_loop (relpath sep (fst v)) data (snd (snd v))"
    using files_loop_reads_passing [of "relpath sep (fst w)" data "snd (snd w)"]
      files_loop_reads_passing [of "relpath sep (fst v)" data "snd (snd v)"]
    by (simp add: names read)
  show ?case
  proof (cases "files_loop (relpath sep (fst v)) data (snd (snd v))")
    case (Inl e)
    with same ws2 show ?thesis by (simp add: walk_loop_Cons)
  next
    case (Inr d)
    with same ws2 Cons.IH [OF rest, of d] show ?thesis by (simp add: walk_loop_Cons)
  qed
qed

text \<open>
  C8. The classifier is deterministic: two runs in which the walk yields the same
  directories in the same order and the files that are decoded are the same, in the
  same order and with the same decoded images, return the same records in the same
  order (or fail alike). Nothing else enters the result: not the path of the root, not
  the files that the filter rejects, not the rest of the file system.
\<close>

theorem same_reads_same_records:
  assumes "read_by_run (os_walk fs1 d1) = read_by_run (os_walk fs2 d2)"
  shows "check_ToD sep fs1 d1 = check_ToD sep fs2 d2"
  using walk_loop_reads [OF assms, of sep "[]"] by (simp add: check_ToD_def)

lemma copied_walk:
  "os_walk copied_fs ''Backup'' =
     [([], [''sub''],
       [(''Thumbs.db'', None), (''a.JPG'', Some night_px), (''preview.png'', Some day_px)]),
      ([''sub''], [''deep''], [(''b.JPG'', Some day_px), (''b.jpg'', Some boundary_px)]),
      ([''sub'', ''deep''], [], [(''c.JPG'', Some day_px)])]"
  by (simp add: os_walk_def copied_fs_def copied_tree_def)

theorem same_reads_same_records_witness:
  "read_by_run (os_walk nested_fs ''CT_Images'') =
     [([], [(''a.JPG'', Some night_px)]),
      ([''sub''], [(''b.JPG'', Some day_px)]),
      ([''sub'', ''deep''], [(''c.JPG'', Some day_px)])]
   \<and> read_by_run (os_walk copied_fs ''Backup'') =
     [([], [(''a.JPG'', Some night_px)]),
      ([''sub''], [(''b.JPG'', Some day_px)]),
      ([''sub'', ''deep''], [(''c.JPG'', Some day_px)])]
   \<and> os_walk nested_fs ''CT_Images'' \<noteq> os_walk copied_fs ''Backup''
   \<and> check_ToD (CHR ''/'') copied_fs ''Backup'' =
       Inr \<lparr>columns = [''filename'', ''saturation'', ''value'', ''Night''],
            rows = [\<lparr>filename = ''./a.JPG'', saturation = 1, val = 50, Night = True\<rparr>,
                    \<lparr>filename = ''sub/b.JPG'', saturation = 160, val = 190, Night = False\<rparr>,
                    \<lparr>filename = ''sub/deep/c.JPG'', saturation = 160, val = 190,
                      Night = False\<rparr>]\<rparr>"
proof -
  have r1: "read_by_run (os_walk nested_fs ''CT_Images'') =
     [([], [(''a.JPG'', Some night_px)]),
      ([''sub''], [(''b.JPG'', Some day_px)]),
      ([''sub'', ''deep''], [(''c.JPG'', Some day_px)])]"
    by (simp add: nested_walk read_by_run_def endswith_def filter_suffix_eq)
  have r2: "read_by_run (os_walk copied_fs ''Backup'') =
     [([], [(''a.JPG'', Some night_px)]),
      ([''sub''], [(''b.JPG'', Some day_px)]),
      ([''sub'', ''deep''], [(''c.JPG'', Some day_px)])]"
    by (simp add: copied_walk read_by_run_def endswith_def filter_suffix_eq)
  have h: "read_by_run (os_walk nested_fs ''CT_Images'') =
           read_by_run (os_walk copied_fs ''Backup'')"
    by (simp add: r1 r2)
  have differ: "os_walk nested_fs ''CT_Images'' \<noteq> os_walk copied_fs ''Backup''"
    by (simp add: nested_walk copied_walk)
  from same_reads_same_records [OF h, of "CHR ''/''"] r1 r2 differ nested_run
  show ?thesis by simp
qed

subsection \<open>A tree without images\<close>

lemma files_loop_none_pass:
  "\<forall>x\<in>set xs. \<not> endswith (fst x) filter_suffix \<Longrightarrow> files_loop rel data xs = Inr data"
  by (induction xs arbitrary: data) (auto simp: process_file_def)

lemma walk_loop_none_pass:
  "\<forall>w\<in>set ws. \<forall>x\<in>set (snd (snd w)). \<not> endswith (fst x) filter_suffix \<Longrightarrow>
     walk_loop sep data ws = Inr data"
  by (induction ws arbitrary: data) (auto simp: files_loop_none_pass)

text \<open>
  C9, as the claim states it, fails on a directory that holds \<open>notes.txt\<close> and an
  empty subdirectory: the frame returned has no column, so the header line of its
  report is empty and is not the row \<open>filename,saturation,value,Night\<close>.
\<close>

theorem empty_directory_no_header:
  "check_ToD (CHR ''/'') empty_fs ''Empty'' = Inr \<lparr>columns = [], rows = []\<rparr>
   \<and> csv_header \<lparr>columns = [], rows = []\<rparr> = []
   \<and> csv_header \<lparr>columns = [], rows = []\<rparr> \<noteq> ''filename,saturation,value,Night''"
  by (simp add: check_ToD_def os_walk_def empty_fs_def process_file_def filter_suffix_eq
        endswith_def DataFrame_def csv_header_def)

text \<open>
  C9, amended. When no file anywhere under the root passes the filter, the classifier
  does not fail and returns an empty record collection: a frame with no row and no
  column, whose header line is empty.
\<close>

theorem no_image_empty_frame:
  assumes "\<forall>w\<in>set (os_walk fs d). \<forall>x\<in>set (snd (snd w)). \<not> endswith (fst x) filter_suffix"
  shows "check_ToD sep fs d = Inr \<lparr>columns = [], rows = []\<rparr>
         \<and> csv_header \<lparr>columns = [], rows = []\<rparr> = []"
  using walk_loop_none_pass [OF assms, of sep "[]"]
  by (simp add: check_ToD_def DataFrame_def csv_header_def)

theorem no_image_empty_frame_witness:
  "os_walk empty_fs ''Empty'' = [([], [''sub''], [(''notes.txt'', None)]), ([''sub''], [], [])]
   \<and> \<not> endswith ''notes.txt'' filter_suffix
   \<and> check_ToD (CHR 0x5C) empty_fs ''Empty'' = Inr \<lparr>columns = [], rows = []\<rparr>"
proof -
  have walk: "os_walk empty_fs ''Empty'' =
      [([], [''sub''], [(''notes.txt'', None)]), ([''sub''], [], [])]"
    by (simp add: os_walk_def empty_fs_def)
  have name: "\<not> endswith ''notes.txt'' filter_suffix"
    by (simp add: endswith_def filter_suffix_eq)
  have h: "\<forall>w\<in>set (os_walk empty_fs ''Empty''). \<forall>x\<in>set (snd (snd w)).
       \<not> endswith (fst x) filter_suffix"
    using name by (simp add: walk)
  from no_image_empty_frame [OF h, of "CHR 0x5C"] walk name show ?thesis
    by simp
qed

end
